theory Spec2Isabelle
  imports Main
begin

section \<open>Python strings and the library functions the lyrics module calls\<close>

text \<open>
  A Python \<open>str\<close> is a sequence of Unicode code points, so a string is a list of
  natural numbers here and \<open>length\<close> counts what Python's \<open>len\<close> counts. ASCII
  literals are written \<open>str ''...''\<close>.
\<close>

type_synonym codepoint = nat
type_synonym pystr = "codepoint list"

abbreviation str :: "string \<Rightarrow> pystr" where
  "str s \<equiv> map of_char s"

text \<open>
  What lies outside the repository and depends on data tables that are not part of it is
  taken as a parameter:
  \<^item> \<open>unicode_lower\<close>: what \<open>str.lower\<close> makes of one code point above ASCII, given the
    text before and after it (one to three code points; the capital sigma looks at its
    context);
  \<^item> \<open>regex_fold\<close>: the case folding that the \<open>regex\<close> module applies to a code point
    above ASCII under the flag \<open>(?i)\<close>;
  \<^item> \<open>regex_alnum\<close>: whether a code point above ASCII is in \<open>[[:alnum:]]\<close>;
  \<^item> \<open>pyphen_inserted\<close>: \<open>pyphen.Pyphen(lang="en_US").inserted(word, hyphen="|")\<close>.
  On ASCII code points the first three are written out below and the parameter is never
  consulted.
\<close>

record library =
  unicode_lower :: "pystr \<Rightarrow> codepoint \<Rightarrow> pystr \<Rightarrow> pystr"
  regex_fold :: "codepoint \<Rightarrow> codepoint"
  regex_alnum :: "codepoint \<Rightarrow> bool"
  pyphen_inserted :: "pystr \<Rightarrow> pystr"

definition ascii_lower :: "codepoint \<Rightarrow> codepoint" where
  "ascii_lower c = (if 65 \<le> c \<and> c \<le> 90 then c + 32 else c)"

text \<open>\<open>text.lower()\<close>, scanning left to right; \<open>pre\<close> is the text already passed.\<close>

fun lower_from :: "library \<Rightarrow> pystr \<Rightarrow> pystr \<Rightarrow> pystr" where
  "lower_from L pre [] = []"
| "lower_from L pre (c # cs) =
     (if c < 128 then [ascii_lower c] else unicode_lower L pre c cs)
       @ lower_from L (pre @ [c]) cs"

definition py_lower :: "library \<Rightarrow> pystr \<Rightarrow> pystr" where
  "py_lower L text = lower_from L [] text"

text \<open>
  The code points that \<open>str.split()\<close> and \<open>str.strip()\<close> treat as whitespace:
  U+0009..U+000D, U+001C..U+0020, U+0085, U+00A0, U+1680, U+2000..U+200A, U+2028, U+2029,
  U+202F, U+205F and U+3000.
\<close>

definition py_isspace :: "codepoint \<Rightarrow> bool" where
  "py_isspace c \<longleftrightarrow>
     (9 \<le> c \<and> c \<le> 13) \<or> (28 \<le> c \<and> c \<le> 32) \<or> c = 133 \<or> c = 160 \<or> c = 5760
     \<or> (8192 \<le> c \<and> c \<le> 8202) \<or> c = 8232 \<or> c = 8233 \<or> c = 8239 \<or> c = 8287
     \<or> c = 12288"

text \<open>\<open>text.strip()\<close>: leading and trailing whitespace removed.\<close>

definition py_strip :: "pystr \<Rightarrow> pystr" where
  "py_strip text = rev (dropWhile py_isspace (rev (dropWhile py_isspace text)))"

text \<open>
  \<open>text.split()\<close>: the maximal runs of non-whitespace, in order; \<open>cur\<close> is the token
  being read.
\<close>

fun split_from :: "pystr \<Rightarrow> pystr \<Rightarrow> pystr list" where
  "split_from cur [] = (if cur = [] then [] else [cur])"
| "split_from cur (c # cs) =
     (if py_isspace c then (if cur = [] then split_from [] cs else cur # split_from [] cs)
      else split_from (cur @ [c]) cs)"

definition py_split :: "pystr \<Rightarrow> pystr list" where
  "py_split text = split_from [] text"

text \<open>
  \<open>text.split(sep)\<close> for a separator of one code point: every occurrence separates, and
  empty pieces are kept.
\<close>

fun split_sep_from :: "codepoint \<Rightarrow> pystr \<Rightarrow> pystr \<Rightarrow> pystr list" where
  "split_sep_from sep cur [] = [cur]"
| "split_sep_from sep cur (c # cs) =
     (if c = sep then cur # split_sep_from sep [] cs else split_sep_from sep (cur @ [c]) cs)"

definition py_split_sep :: "codepoint \<Rightarrow> pystr \<Rightarrow> pystr list" where
  "py_split_sep sep text = split_sep_from sep [] text"

text \<open>
  \<open>text.splitlines()\<close>: the line boundaries are U+000A..U+000D, U+001C..U+001E, U+0085,
  U+2028 and U+2029, with CR LF taken as one; no empty last line after a final boundary.
\<close>

definition py_islinebreak :: "codepoint \<Rightarrow> bool" where
  "py_islinebreak c \<longleftrightarrow>
     (10 \<le> c \<and> c \<le> 13) \<or> (28 \<le> c \<and> c \<le> 30) \<or> c = 133 \<or> c = 8232 \<or> c = 8233"

fun splitlines_from :: "pystr \<Rightarrow> pystr \<Rightarrow> pystr list" where
  "splitlines_from cur [] = (if cur = [] then [] else [cur])"
| "splitlines_from cur [c] = (if py_islinebreak c then [cur] else [cur @ [c]])"
| "splitlines_from cur (c # d # cs) =
     (if c = 13 \<and> d = 10 then cur # splitlines_from [] cs
      else if py_islinebreak c then cur # splitlines_from [] (d # cs)
      else splitlines_from (cur @ [c]) (d # cs))"

definition py_splitlines :: "pystr \<Rightarrow> pystr list" where
  "py_splitlines text = splitlines_from [] text"

text \<open>\<open>text.replace(old, new)\<close> for an \<open>old\<close> of one code point.\<close>

definition py_replace :: "codepoint \<Rightarrow> pystr \<Rightarrow> pystr \<Rightarrow> pystr" where
  "py_replace old new text = concat (map (\<lambda>c. if c = old then new else [c]) text)"

section \<open>Normalisation\<close>

text \<open>\<open>strip_parens\<close>: \<open>text.replace("(", "").replace(")", "")\<close>.\<close>

definition strip_parens :: "pystr \<Rightarrow> pystr" where
  "strip_parens text = py_replace 41 [] (py_replace 40 [] text)"

text \<open>
  The character class of \<open>[^a-z'\n ()]\<close>, unnegated: \<open>a\<close>..\<open>z\<close>, the apostrophe (39),
  the newline (10), the space (32), \<open>(\<close> (40) and \<open>)\<close> (41).
\<close>

definition in_class :: "codepoint \<Rightarrow> bool" where
  "in_class c \<longleftrightarrow> (97 \<le> c \<and> c \<le> 122) \<or> c = 39 \<or> c = 10 \<or> c = 32 \<or> c = 40 \<or> c = 41"

text \<open>\<open>re.sub("([^a-z'\n ()])", " ", text)\<close>.\<close>

definition sub_outside_class :: "pystr \<Rightarrow> pystr" where
  "sub_outside_class text = map (\<lambda>c. if in_class c then c else 32) text"

text \<open>
  \<open>re.sub("\n[\n ]+", "\n", text)\<close>: at a newline followed by at least one newline or
  space, the newline and the whole run after it (the quantifier is greedy) become one
  newline, and the scan goes on after the run.
\<close>

definition nl_or_sp :: "codepoint \<Rightarrow> bool" where
  "nl_or_sp c \<longleftrightarrow> c = 10 \<or> c = 32"

function sub_newline_runs :: "pystr \<Rightarrow> pystr" where
  "sub_newline_runs [] = []"
| "sub_newline_runs (c # cs) =
     (if c = 10 \<and> takeWhile nl_or_sp cs \<noteq> []
      then 10 # sub_newline_runs (dropWhile nl_or_sp cs)
      else c # sub_newline_runs cs)"
  by pat_completeness auto
termination
  by (relation "measure length") (auto simp: less_Suc_eq_le length_dropWhile_le)

text \<open>\<open>re.sub(" +", " ", text)\<close>: every maximal run of spaces becomes one space.\<close>

function sub_space_runs :: "pystr \<Rightarrow> pystr" where
  "sub_space_runs [] = []"
| "sub_space_runs (c # cs) =
     (if c = 32 then 32 # sub_space_runs (dropWhile (\<lambda>x. x = 32) cs)
      else c # sub_space_runs cs)"
  by pat_completeness auto
termination
  by (relation "measure length") (auto simp: less_Suc_eq_le length_dropWhile_le)

definition normalize_uroman :: "library \<Rightarrow> pystr \<Rightarrow> pystr" where
  "normalize_uroman L text =
     (let text = py_lower L text;
          text = py_replace 39 [39] text;
          text = sub_outside_class text;
          text = sub_newline_runs text;
          text = sub_space_runs text
      in py_strip text)"

text \<open>
  Two conditions on neighbouring code points, for what the substitutions leave behind:
  a newline is not followed by a newline or a space; a space is not followed by a space.
\<close>

definition newline_ok :: "codepoint \<Rightarrow> codepoint \<Rightarrow> bool" where
  "newline_ok x y \<longleftrightarrow> \<not> (x = 10 \<and> nl_or_sp y)"

definition space_ok :: "codepoint \<Rightarrow> codepoint \<Rightarrow> bool" where
  "space_ok x y \<longleftrightarrow> \<not> (x = 32 \<and> y = 32)"

text \<open>
  A library for evaluating on ASCII text, where none of its tables is consulted: code
  points above ASCII are left alone, and the hyphenator finds no hyphenation point.
\<close>

definition plain_library :: library where
  "plain_library =
     \<lparr>unicode_lower = (\<lambda>pre c post. [c]), regex_fold = (\<lambda>c. c),
      regex_alnum = (\<lambda>c. False), pyphen_inserted = (\<lambda>word. word)\<rparr>"


section \<open>Syllable splitting\<close>

text \<open>
  \<open>AUTO_SPLIT_RE\<close> consists of lookarounds only, so it matches the empty string at a
  position or not at all, and whether it does depends on the code point before the
  position (\<open>None\<close> at the start of the word) and the one after it (\<open>None\<close> at the
  end). Under \<open>(?i)\<close> a code point is compared after case folding.
\<close>

definition fold_case :: "library \<Rightarrow> codepoint \<Rightarrow> codepoint" where
  "fold_case L c = (if c < 128 then ascii_lower c else regex_fold L c)"

text \<open>A set \<open>[...]\<close> of lower-case ASCII letters under \<open>(?i)\<close>.\<close>

definition in_set :: "library \<Rightarrow> string \<Rightarrow> codepoint \<Rightarrow> bool" where
  "in_set L letters c \<longleftrightarrow> fold_case L c \<in> set (str letters)"

text \<open>\<open>[[:alnum:]]\<close>.\<close>

definition alnum :: "library \<Rightarrow> codepoint \<Rightarrow> bool" where
  "alnum L c \<longleftrightarrow>
     (if c < 128 then (48 \<le> c \<and> c \<le> 57) \<or> (65 \<le> c \<and> c \<le> 90) \<or> (97 \<le> c \<and> c \<le> 122)
      else regex_alnum L c)"

text \<open>
  \<open>(?<=X)\<close> and \<open>(?=X)\<close> for an \<open>X\<close> that matches one code point: there must be a code
  point on that side, and it must match.
\<close>

fun look :: "(codepoint \<Rightarrow> bool) \<Rightarrow> codepoint option \<Rightarrow> bool" where
  "look X None = False"
| "look X (Some c) = X c"

text \<open>
  The five alternatives, in the order of the source:
  \<open>(?<=[^sc])(?=h)\<close>, \<open>(?<=[^kstnhfmrwpbdgzcj])(?=y)\<close>, \<open>(?<=[^t])(?=s)\<close>,
  \<open>(?=[ktnfmrwpbdgzcj])\<close> and \<open>(?<=[aeiou]|[^[:alnum:]])(?=[aeiou])\<close>.
\<close>

definition AUTO_SPLIT_RE :: "library \<Rightarrow> codepoint option \<Rightarrow> codepoint option \<Rightarrow> bool" where
  "AUTO_SPLIT_RE L behind ahead \<longleftrightarrow>
     (look (\<lambda>c. \<not> in_set L ''sc'' c) behind \<and> look (in_set L ''h'') ahead)
   \<or> (look (\<lambda>c. \<not> in_set L ''kstnhfmrwpbdgzcj'' c) behind \<and> look (in_set L ''y'') ahead)
   \<or> (look (\<lambda>c. \<not> in_set L ''t'' c) behind \<and> look (in_set L ''s'') ahead)
   \<or> look (in_set L ''ktnfmrwpbdgzcj'') ahead
   \<or> (look (\<lambda>c. in_set L ''aeiou'' c \<or> \<not> alnum L c) behind
        \<and> look (in_set L ''aeiou'') ahead)"

text \<open>
  \<open>AUTO_SPLIT_RE.subn("#@", word)\<close>, the string it returns: the marker \<open>#@\<close> is
  inserted at every position where the expression matches, the position after the last
  code point included.
\<close>

fun subn_from :: "library \<Rightarrow> codepoint option \<Rightarrow> pystr \<Rightarrow> pystr" where
  "subn_from L behind [] = (if AUTO_SPLIT_RE L behind None then str ''#@'' else [])"
| "subn_from L behind (c # cs) =
     (if AUTO_SPLIT_RE L behind (Some c) then str ''#@'' else [])
       @ c # subn_from L (Some c) cs"

definition subn :: "library \<Rightarrow> pystr \<Rightarrow> pystr" where
  "subn L word = subn_from L None word"

text \<open>
  \<open>re.split("#@", text)\<close>: the text is cut at every occurrence of the marker, found
  from left to right, and empty pieces are kept; \<open>cur\<close> is the piece being read.
\<close>

fun re_split_from :: "pystr \<Rightarrow> pystr \<Rightarrow> pystr list" where
  "re_split_from cur [] = [cur]"
| "re_split_from cur [c] = [cur @ [c]]"
| "re_split_from cur (c # d # cs) =
     (if c = 35 \<and> d = 64 then cur # re_split_from [] cs
      else re_split_from (cur @ [c]) (d # cs))"

definition re_split :: "pystr \<Rightarrow> pystr list" where
  "re_split text = re_split_from [] text"

text \<open>The custom English syllable dictionary, entry by entry.\<close>

definition CUSTOM_ENGLISH_SYLLABLES :: "(pystr \<times> pystr list) list" where
  "CUSTOM_ENGLISH_SYLLABLES =
     [
      (str ''singing'', [str ''sing'', str ''ing'']),
      (str ''melody'', [str ''mel'', str ''o'', str ''dy'']),
      (str ''karaoke'', [str ''kar'', str ''a'', str ''o'', str ''ke'']),
      (str ''rhythm'', [str ''rhythm'']),
      (str ''tonight'', [str ''to'', str ''night'']),
      (str ''everyday'', [str ''ev'', str ''ry'', str ''day'']),
      (str ''someday'', [str ''some'', str ''day'']),
      (str ''sunday'', [str ''sun'', str ''day'']),
      (str ''monday'', [str ''mon'', str ''day'']),
      (str ''tuesday'', [str ''tues'', str ''day'']),
      (str ''wednesday'', [str ''wednes'', str ''day'']),
      (str ''thursday'', [str ''thurs'', str ''day'']),
      (str ''friday'', [str ''fri'', str ''day'']),
      (str ''saturday'', [str ''sat'', str ''ur'', str ''day'']),
      (str ''gonna'', [str ''gon'', str ''na'']),
      (str ''wanna'', [str ''wan'', str ''na'']),
      (str ''gotta'', [str ''got'', str ''ta'']),
      (str ''kinda'', [str ''kin'', str ''da'']),
      (str ''sorta'', [str ''sor'', str ''ta'']),
      (str ''outta'', [str ''out'', str ''ta'']),
      (str ''coulda'', [str ''could'', str ''a'']),
      (str ''shoulda'', [str ''should'', str ''a'']),
      (str ''woulda'', [str ''would'', str ''a'']),
      (str ''loving'', [str ''lov'', str ''ing'']),
      (str ''feeling'', [str ''feel'', str ''ing'']),
      (str ''dreaming'', [str ''dream'', str ''ing'']),
      (str ''hoping'', [str ''hop'', str ''ing'']),
      (str ''baby'', [str ''ba'', str ''by'']),
      (str ''maybe'', [str ''may'', str ''be'']),
      (str ''crazy'', [str ''cra'', str ''zy'']),
      (str ''lady'', [str ''la'', str ''dy'']),
      (str ''lately'', [str ''late'', str ''ly'']),
      (str ''lonely'', [str ''lone'', str ''ly'']),
      (str ''only'', [str ''on'', str ''ly'']),
      (str ''really'', [str ''re'', str ''al'', str ''ly'']),
      (str ''yeah'', [str ''yeah'']),
      (str ''whoa'', [str ''whoa'']),
      (str ''woah'', [str ''woah''])
     ]"

definition split_english :: "library \<Rightarrow> pystr \<Rightarrow> pystr list" where
  "split_english L word =
     (case map_of CUSTOM_ENGLISH_SYLLABLES word of
        Some syllables \<Rightarrow> syllables
      | None \<Rightarrow>
          (let result = pyphen_inserted L word
           in if result \<noteq> [] then py_split_sep 124 result else [word]))"

definition auto_split :: "library \<Rightarrow> pystr \<Rightarrow> pystr \<Rightarrow> pystr list" where
  "auto_split L word language =
     (if language = str ''en'' then split_english L word
      else filter (\<lambda>s. s \<noteq> []) (re_split (subn L word)))"

section \<open>The lyrics hierarchy\<close>

text \<open>
  The cached properties of \<open>_Text\<close> are functions of the field \<open>raw\<close> alone, the same
  for \<open>Lyrics\<close>, \<open>Line\<close> and \<open>Word\<close>. The annotation \<open>Literal["ja", "en"]\<close> is not
  checked when the program runs, so \<open>language\<close> is any string.
\<close>

definition normalized :: "library \<Rightarrow> pystr \<Rightarrow> pystr" where
  "normalized L raw = normalize_uroman L raw"

definition transcript :: "library \<Rightarrow> pystr \<Rightarrow> pystr list" where
  "transcript L raw = py_split (normalized L raw)"

definition transcript_for_alignment :: "library \<Rightarrow> pystr \<Rightarrow> pystr list" where
  "transcript_for_alignment L raw = py_split (strip_parens (normalized L raw))"

datatype Word = Word (word_raw: pystr) (word_language: pystr)

datatype Line = Line (line_raw: pystr) (line_language: pystr)

datatype Lyrics = Lyrics (lyrics_raw: pystr) (lyrics_language: pystr)

fun lines :: "Lyrics \<Rightarrow> Line list" where
  "lines (Lyrics raw language) =
     map (\<lambda>line. Line line language) (filter (\<lambda>line. line \<noteq> []) (py_splitlines raw))"

fun words :: "library \<Rightarrow> Line \<Rightarrow> Word list" where
  "words L (Line raw language) =
     map (\<lambda>word. Word word language) (filter (\<lambda>word. word \<noteq> []) (transcript L raw))"

fun syllables :: "library \<Rightarrow> Word \<Rightarrow> pystr list" where
  "syllables L (Word raw language) = auto_split L (normalized L raw) language"

section \<open>Evaluation on concrete inputs\<close>

lemmas normalize_eval =
  normalize_uroman_def py_lower_def ascii_lower_def py_replace_def sub_outside_class_def
  in_class_def nl_or_sp_def py_strip_def py_isspace_def

lemmas split_eval =
  auto_split_def subn_def AUTO_SPLIT_RE_def in_set_def fold_case_def ascii_lower_def
  alnum_def re_split_def

lemmas english_eval =
  auto_split_def split_english_def CUSTOM_ENGLISH_SYLLABLES_def

lemmas hierarchy_eval =
  transcript_def normalized_def normalize_eval py_split_def py_splitlines_def
  py_islinebreak_def

section \<open>What normalisation leaves\<close>

lemma py_replace_same: "py_replace c [c] s = s"
  by (induction s) (simp_all add: py_replace_def)

lemma in_class_sub_outside_class: "c \<in> set (sub_outside_class s) \<Longrightarrow> in_class c"
  by (auto simp: sub_outside_class_def in_class_def)

lemma set_sub_newline_runs: "set (sub_newline_runs s) \<subseteq> set s"
proof (induction s rule: sub_newline_runs.induct)
  case 1
  show ?case by simp
next
  case (2 c cs)
  show ?case
  proof (cases "c = 10 \<and> takeWhile nl_or_sp cs \<noteq> []")
    case True
    with 2 have "set (sub_newline_runs (dropWhile nl_or_sp cs)) \<subseteq> set cs"
      using set_dropWhileD by fastforce
    with True show ?thesis by auto
  next
    case False
    with 2 show ?thesis by auto
  qed
qed

lemma set_sub_space_runs: "set (sub_space_runs s) \<subseteq> set s"
proof (induction s rule: sub_space_runs.induct)
  case 1
  show ?case by simp
next
  case (2 c cs)
  show ?case
  proof (cases "c = 32")
    case True
    with 2 have "set (sub_space_runs (dropWhile (\<lambda>x. x = 32) cs)) \<subseteq> set cs"
      using set_dropWhileD by fastforce
    with True show ?thesis by auto
  next
    case False
    with 2 show ?thesis by auto
  qed
qed

lemma set_py_strip: "set (py_strip s) \<subseteq> set s"
proof
  fix c assume "c \<in> set (py_strip s)"
  then have "c \<in> set (dropWhile py_isspace (rev (dropWhile py_isspace s)))"
    by (simp add: py_strip_def)
  then have "c \<in> set (dropWhile py_isspace s)"
    using set_dropWhileD by fastforce
  then show "c \<in> set s" by (rule set_dropWhileD)
qed

lemma set_normalize_uroman:
  "set (normalize_uroman L s) \<subseteq> set (sub_outside_class (py_lower L s))"
proof -
  have "set (normalize_uroman L s)
          \<subseteq> set (sub_space_runs (sub_newline_runs (sub_outside_class (py_lower L s))))"
    by (simp add: normalize_uroman_def py_replace_same set_py_strip)
  also have "\<dots> \<subseteq> set (sub_newline_runs (sub_outside_class (py_lower L s)))"
    by (rule set_sub_space_runs)
  also have "\<dots> \<subseteq> set (sub_outside_class (py_lower L s))"
    by (rule set_sub_newline_runs)
  finally show ?thesis .
qed

lemma in_class_normalize_uroman: "c \<in> set (normalize_uroman L s) \<Longrightarrow> in_class c"
  using set_normalize_uroman in_class_sub_outside_class by blast

lemma lower_from_in_class: "\<forall>c \<in> set s. in_class c \<Longrightarrow> lower_from L pre s = s"
  by (induction s arbitrary: pre) (auto simp: in_class_def ascii_lower_def)

lemma sub_outside_class_in_class: "\<forall>c \<in> set s. in_class c \<Longrightarrow> sub_outside_class s = s"
  by (simp add: sub_outside_class_def map_idI)

lemma successively_dropWhile: "successively P xs \<Longrightarrow> successively P (dropWhile Q xs)"
proof -
  assume "successively P xs"
  then have "successively P (takeWhile Q xs @ dropWhile Q xs)" by simp
  then show ?thesis unfolding successively_append_iff by blast
qed

lemma last_dropWhile_eq: "dropWhile Q xs \<noteq> [] \<Longrightarrow> last (dropWhile Q xs) = last xs"
proof -
  assume ne: "dropWhile Q xs \<noteq> []"
  have "last xs = last (takeWhile Q xs @ dropWhile Q xs)" by simp
  also have "\<dots> = last (dropWhile Q xs)" using ne by (rule last_appendR)
  finally show ?thesis by simp
qed

lemma successively_py_strip: "successively P s \<Longrightarrow> successively P (py_strip s)"
  by (simp add: py_strip_def successively_rev successively_dropWhile)

lemma py_strip_idem: "py_strip (py_strip s) = py_strip s"
proof -
  define ys where "ys = dropWhile py_isspace s"
  define zs where "zs = dropWhile py_isspace (rev ys)"
  have strip: "py_strip s = rev zs" by (simp add: py_strip_def ys_def zs_def)
  have front: "dropWhile py_isspace (rev zs) = rev zs"
  proof (cases "zs = []")
    case True
    then show ?thesis by simp
  next
    case False
    then have "last zs = last (rev ys)" unfolding zs_def by (rule last_dropWhile_eq)
    moreover from False have ys_ne: "ys \<noteq> []" by (auto simp: zs_def)
    ultimately have "hd (rev zs) = hd ys" using False by (simp add: hd_rev last_rev)
    moreover have "\<not> py_isspace (hd ys)" using ys_ne unfolding ys_def by (rule hd_dropWhile)
    ultimately show ?thesis using False by (cases "rev zs") auto
  qed
  have rear: "dropWhile py_isspace zs = zs" by (simp add: zs_def)
  show ?thesis unfolding strip by (simp add: py_strip_def front rear)
qed

lemma sub_newline_runs_Nil_iff: "sub_newline_runs s = [] \<longleftrightarrow> s = []"
  by (cases s) simp_all

lemma hd_sub_newline_runs: "hd (sub_newline_runs s) = hd s"
  by (cases s) simp_all

lemma sub_space_runs_Nil_iff: "sub_space_runs s = [] \<longleftrightarrow> s = []"
  by (cases s) simp_all

lemma hd_sub_space_runs: "hd (sub_space_runs s) = hd s"
  by (cases s) simp_all

lemma takeWhile_Nil_iff: "takeWhile Q xs = [] \<longleftrightarrow> xs = [] \<or> \<not> Q (hd xs)"
  by (cases xs) simp_all

lemma successively_sub_newline_runs: "successively newline_ok (sub_newline_runs s)"
proof (induction s rule: sub_newline_runs.induct)
  case 1
  show ?case by simp
next
  case (2 c cs)
  show ?case
  proof (cases "c = 10 \<and> takeWhile nl_or_sp cs \<noteq> []")
    case True
    let ?r = "dropWhile nl_or_sp cs"
    have "?r \<noteq> [] \<Longrightarrow> \<not> nl_or_sp (hd ?r)" by (rule hd_dropWhile)
    then have "sub_newline_runs ?r = [] \<or> newline_ok 10 (hd (sub_newline_runs ?r))"
      by (auto simp: sub_newline_runs_Nil_iff hd_sub_newline_runs newline_ok_def)
    with True 2 show ?thesis by (simp add: successively_Cons)
  next
    case False
    then have "cs = [] \<or> newline_ok c (hd cs)"
      by (auto simp: newline_ok_def takeWhile_Nil_iff)
    with False 2 show ?thesis
      by (auto simp: successively_Cons sub_newline_runs_Nil_iff hd_sub_newline_runs)
  qed
qed

lemma successively_sub_space_runs: "successively space_ok (sub_space_runs s)"
proof (induction s rule: sub_space_runs.induct)
  case 1
  show ?case by simp
next
  case (2 c cs)
  show ?case
  proof (cases "c = 32")
    case True
    let ?r = "dropWhile (\<lambda>x. x = 32) cs"
    have "?r \<noteq> [] \<Longrightarrow> hd ?r \<noteq> 32" by (rule hd_dropWhile)
    then have "sub_space_runs ?r = [] \<or> space_ok 32 (hd (sub_space_runs ?r))"
      by (auto simp: sub_space_runs_Nil_iff hd_sub_space_runs space_ok_def)
    with True 2 show ?thesis by (simp add: successively_Cons)
  next
    case False
    with 2 show ?thesis
      by (auto simp: successively_Cons space_ok_def)
  qed
qed

lemma sub_space_runs_keeps_newline_ok:
  "successively newline_ok s \<Longrightarrow> successively newline_ok (sub_space_runs s)"
proof (induction s rule: sub_space_runs.induct)
  case 1
  show ?case by simp
next
  case (2 c cs)
  from "2.prems" have tl: "successively newline_ok cs" by (auto simp: successively_Cons)
  show ?case
  proof (cases "c = 32")
    case True
    from tl have "successively newline_ok (dropWhile (\<lambda>x. x = 32) cs)"
      by (rule successively_dropWhile)
    with True 2 show ?thesis by (simp add: successively_Cons newline_ok_def)
  next
    case False
    with 2 tl show ?thesis
      by (auto simp: successively_Cons sub_space_runs_Nil_iff hd_sub_space_runs)
  qed
qed

lemma sub_newline_runs_fixed: "successively newline_ok s \<Longrightarrow> sub_newline_runs s = s"
proof (induction s rule: sub_newline_runs.induct)
  case 1
  show ?case by simp
next
  case (2 c cs)
  from "2.prems" have tl: "successively newline_ok cs"
    and hd: "cs = [] \<or> newline_ok c (hd cs)" by (auto simp: successively_Cons)
  from hd have no_match: "\<not> (c = 10 \<and> takeWhile nl_or_sp cs \<noteq> [])"
    by (auto simp: newline_ok_def takeWhile_Nil_iff)
  with 2 tl show ?case by auto
qed

lemma sub_space_runs_fixed: "successively space_ok s \<Longrightarrow> sub_space_runs s = s"
proof (induction s rule: sub_space_runs.induct)
  case 1
  show ?case by simp
next
  case (2 c cs)
  from "2.prems" have tl: "successively space_ok cs"
    and hd: "cs = [] \<or> space_ok c (hd cs)" by (auto simp: successively_Cons)
  show ?case
  proof (cases "c = 32")
    case True
    with hd have "dropWhile (\<lambda>x. x = 32) cs = cs"
      by (cases cs) (auto simp: space_ok_def)
    with True 2 tl show ?thesis by simp
  next
    case False
    with 2 tl show ?thesis by simp
  qed
qed

lemma normalize_uroman_newline_ok: "successively newline_ok (normalize_uroman L s)"
  by (simp add: normalize_uroman_def successively_py_strip sub_space_runs_keeps_newline_ok
      successively_sub_newline_runs)

lemma normalize_uroman_space_ok: "successively space_ok (normalize_uroman L s)"
  by (simp add: normalize_uroman_def successively_py_strip successively_sub_space_runs)

lemma normalize_uroman_stripped: "py_strip (normalize_uroman L s) = normalize_uroman L s"
  by (simp add: normalize_uroman_def py_strip_idem)

lemma sub_outside_class_blank:
  "\<forall>c \<in> set s. c = 10 \<or> c = 32 \<or> \<not> in_class c \<Longrightarrow>
     \<forall>c \<in> set (sub_outside_class s). nl_or_sp c"
  by (auto simp: sub_outside_class_def nl_or_sp_def)

lemma py_strip_blank: "\<forall>c \<in> set s. nl_or_sp c \<Longrightarrow> py_strip s = []"
proof -
  assume "\<forall>c \<in> set s. nl_or_sp c"
  then have "\<forall>c \<in> set s. py_isspace c" by (auto simp: nl_or_sp_def py_isspace_def)
  then have blank: "dropWhile py_isspace s = []" by (induction s) simp_all
  show ?thesis unfolding py_strip_def blank by simp
qed

lemma normalize_uroman_blank:
  assumes "\<forall>c \<in> set (py_lower L s). c = 10 \<or> c = 32 \<or> \<not> in_class c"
  shows "normalize_uroman L s = []"
proof -
  let ?a = "sub_outside_class (py_lower L s)"
  have "\<forall>c \<in> set ?a. nl_or_sp c" using assms by (rule sub_outside_class_blank)
  then have "\<forall>c \<in> set (sub_space_runs (sub_newline_runs ?a)). nl_or_sp c"
    using set_sub_space_runs set_sub_newline_runs by blast
  then have "py_strip (sub_space_runs (sub_newline_runs ?a)) = []" by (rule py_strip_blank)
  then show ?thesis by (simp add: normalize_uroman_def py_replace_same)
qed

section \<open>Tokens\<close>

lemma set_split_from: "t \<in> set (split_from cur s) \<Longrightarrow> set t \<subseteq> set cur \<union> set s"
proof (induction s arbitrary: cur)
  case Nil
  then show ?case by (auto split: if_splits)
next
  case (Cons c cs)
  then show ?case by (fastforce split: if_splits)
qed

lemma set_py_split: "t \<in> set (py_split s) \<Longrightarrow> set t \<subseteq> set s"
  using set_split_from [of t "[]" s] by (simp add: py_split_def)

lemma set_py_replace_Nil: "set (py_replace old [] s) = set s - {old}"
  by (induction s) (auto simp: py_replace_def)

lemma set_strip_parens: "set (strip_parens s) = set s - {40, 41}"
  by (auto simp: strip_parens_def set_py_replace_Nil)

section \<open>Syllables and the word they come from\<close>

text \<open>
  The Japanese branch only inserts markers and cuts at markers, so the syllables
  concatenate to the word unless the word itself contains the marker \<open>#@\<close> (35, 64),
  which a normalised word never does. In the English branch every dictionary entry but
  the one for \<open>everyday\<close> concatenates to its key, and the fallback gives the word back
  when the hyphenator has only inserted \<open>|\<close> (124) into it.
\<close>

lemma AUTO_SPLIT_RE_at_end: "\<not> AUTO_SPLIT_RE L behind None"
  by (simp add: AUTO_SPLIT_RE_def)

lemma re_split_from_step:
  "rest = [] \<or> \<not> (c = 35 \<and> hd rest = 64) \<Longrightarrow>
     re_split_from cur (c # rest) = re_split_from (cur @ [c]) rest"
  by (cases rest) auto

lemma hd_subn_from:
  "hd (subn_from L behind (d # ds)) = (if AUTO_SPLIT_RE L behind (Some d) then 35 else d)"
  by simp

lemma concat_re_split_subn_from:
  "successively (\<lambda>x y. \<not> (x = 35 \<and> y = 64)) word \<Longrightarrow>
     concat (re_split_from cur (subn_from L behind word)) = cur @ word"
proof (induction word arbitrary: cur behind)
  case Nil
  show ?case by (simp add: AUTO_SPLIT_RE_at_end)
next
  case (Cons c cs)
  let ?rest = "subn_from L (Some c) cs"
  from Cons.prems have tl: "successively (\<lambda>x y. \<not> (x = 35 \<and> y = 64)) cs"
    and nb: "cs = [] \<or> \<not> (c = 35 \<and> hd cs = 64)"
    by (auto simp: successively_Cons)
  have "?rest = [] \<or> \<not> (c = 35 \<and> hd ?rest = 64)"
  proof (cases cs)
    case Nil
    then show ?thesis by (simp add: AUTO_SPLIT_RE_at_end)
  next
    case (Cons d ds)
    with nb show ?thesis by (auto simp del: subn_from.simps simp add: hd_subn_from)
  qed
  then have step: "\<And>acc. re_split_from acc (c # ?rest) = re_split_from (acc @ [c]) ?rest"
    by (rule re_split_from_step)
  have inner: "\<And>acc. concat (re_split_from acc (c # ?rest)) = acc @ c # cs"
    using Cons.IH [OF tl] by (simp add: step)
  show ?case
  proof (cases "AUTO_SPLIT_RE L behind (Some c)")
    case True
    then have "subn_from L behind (c # cs) = 35 # 64 # c # ?rest" by simp
    then show ?thesis using inner [of "[]"] by simp
  next
    case False
    then have "subn_from L behind (c # cs) = c # ?rest" by simp
    then show ?thesis using inner [of cur] by simp
  qed
qed

lemma concat_filter_nonempty: "concat (filter (\<lambda>s. s \<noteq> []) xss) = concat xss"
  by (induction xss) simp_all

lemma auto_split_japanese_concat:
  "language \<noteq> str ''en'' \<Longrightarrow> successively (\<lambda>x y. \<not> (x = 35 \<and> y = 64)) word \<Longrightarrow>
     concat (auto_split L word language) = word"
  using concat_re_split_subn_from [of word "[]" L None]
  by (simp add: auto_split_def concat_filter_nonempty re_split_def subn_def)

lemma no_hash_no_marker:
  "35 \<notin> set word \<Longrightarrow> successively (\<lambda>x y. \<not> (x = 35 \<and> y = 64)) word"
  by (induction word rule: induct_list012) simp_all

lemma no_marker_in_normalized:
  "successively (\<lambda>x y. \<not> (x = 35 \<and> y = 64)) (normalize_uroman L s)"
proof -
  have "35 \<notin> set (normalize_uroman L s)"
    using in_class_normalize_uroman [of 35 L s] by (auto simp: in_class_def)
  then show ?thesis by (rule no_hash_no_marker)
qed

lemma syllables_japanese_concat:
  assumes "language \<noteq> str ''en''"
  shows "concat (syllables L (Word raw language)) = normalized L raw"
proof -
  have "concat (auto_split L (normalize_uroman L raw) language) = normalize_uroman L raw"
    using assms no_marker_in_normalized by (rule auto_split_japanese_concat)
  then show ?thesis by (simp add: normalized_def)
qed

lemma custom_entries_concat:
  "\<forall>(word, syls) \<in> set CUSTOM_ENGLISH_SYLLABLES.
     word \<noteq> str ''everyday'' \<longrightarrow> concat syls = word"
  by (simp add: CUSTOM_ENGLISH_SYLLABLES_def)

lemma concat_split_sep_from:
  "concat (split_sep_from sep cur s) = cur @ filter (\<lambda>c. c \<noteq> sep) s"
  by (induction s arbitrary: cur) simp_all

lemma split_english_fallback_concat:
  assumes "map_of CUSTOM_ENGLISH_SYLLABLES word = None"
    and "filter (\<lambda>c. c \<noteq> 124) (pyphen_inserted L word) = word"
  shows "concat (split_english L word) = word"
  using assms by (auto simp: split_english_def Let_def py_split_sep_def concat_split_sep_from)

section \<open>The claims\<close>

text \<open>
  C1. The claim: for every word and for both languages, the syllables returned by
  \<open>auto_split\<close> concatenate to the word. The dictionary entry for \<open>everyday\<close> is
  \<open>["ev", "ry", "day"]\<close>: for the English word \<open>everyday\<close> the syllables concatenate to
  \<open>evryday\<close>, one letter short, whatever the libraries do. Every other entry of the
  dictionary, and the Japanese branch on any normalised word, give the word back (the
  lemmas of the section before this one).
\<close>

theorem C1_everyday_loses_a_letter:
  "concat (auto_split L (str ''everyday'') (str ''en'')) = str ''evryday''
   \<and> concat (auto_split L (str ''everyday'') (str ''en'')) \<noteq> str ''everyday''"
  by (simp add: english_eval)

text \<open>
  C2, as claimed: a language that is neither \<open>ja\<close> nor \<open>en\<close> is refused with an error
  before any segmentation. It is not: with the language \<open>fr\<close>, \<open>auto_split\<close> returns the
  Japanese syllables of \<open>kyou\<close>, and so does the hierarchy built by \<open>Lyrics\<close> with that
  language.
\<close>

theorem C2_unknown_language_counterexample:
  "auto_split plain_library (str ''kyou'') (str ''fr'') = [str ''kyo'', str ''u'']
   \<and> map (\<lambda>line. map (syllables plain_library) (words plain_library line))
        (lines (Lyrics (str ''kyou'') (str ''fr''))) = [[[str ''kyo'', str ''u'']]]"
  by (simp add: split_eval normalize_eval normalized_def transcript_def py_split_def
      py_splitlines_def py_islinebreak_def plain_library_def)

text \<open>
  C2, amended: the core raises no error for a language that is neither \<open>ja\<close> nor \<open>en\<close>;
  every language other than \<open>en\<close> takes the Japanese branch of \<open>auto_split\<close>, so the
  syllables of a word are those it has with the language \<open>ja\<close>.
\<close>

theorem C2_other_language_is_japanese:
  "language \<noteq> str ''en'' \<Longrightarrow>
     auto_split L word language = auto_split L word (str ''ja'')
     \<and> syllables L (Word raw language) = syllables L (Word raw (str ''ja''))"
  by (simp add: auto_split_def)

theorem C2_other_language_is_japanese_witness:
  "str ''fr'' \<noteq> str ''en''
   \<and> auto_split plain_library (str ''kyou'') (str ''fr'')
       = auto_split plain_library (str ''kyou'') (str ''ja'')
   \<and> syllables plain_library (Word (str ''kyou'') (str ''fr''))
       = syllables plain_library (Word (str ''kyou'') (str ''ja''))"
proof -
  have ne: "str ''fr'' \<noteq> str ''en''" by simp
  show ?thesis
    using ne C2_other_language_is_japanese [OF ne, of plain_library "str ''kyou''" "str ''kyou''"]
    by blast
qed

text \<open>
  C3, as claimed: \<open>normalize_uroman\<close> maps \<open>"Hello,  World!\n\n(oohh)"\<close> to
  \<open>"hello world\n(oohh)"\<close>. It does not.
\<close>

theorem C3_normalize_scenario_counterexample:
  "normalize_uroman plain_library (str ''Hello,  World!\<newline>\<newline>(oohh)'')
     \<noteq> str ''hello world\<newline>(oohh)''"
  by (simp add: normalize_eval plain_library_def)

text \<open>
  C3, amended: the exclamation mark becomes a space, and a space before a newline is
  kept (only the spaces and newlines after a newline are removed), so the result is
  \<open>"hello world \n(oohh)"\<close>, with a space before the newline.
\<close>

theorem C3_normalize_scenario:
  "normalize_uroman L (str ''Hello,  World!\<newline>\<newline>(oohh)'')
     = str ''hello world \<newline>(oohh)''"
  by (simp add: normalize_eval)

text \<open>
  C4. Normalisation is idempotent: normalising a normalised text returns it unchanged.
\<close>

theorem C4_normalize_idempotent:
  "normalize_uroman L (normalize_uroman L s) = normalize_uroman L s"
proof -
  let ?n = "normalize_uroman L s"
  have cls: "\<forall>c \<in> set ?n. in_class c" using in_class_normalize_uroman by blast
  have "normalize_uroman L ?n = py_strip (sub_space_runs (sub_newline_runs ?n))"
    by (simp add: normalize_uroman_def [of L ?n] py_lower_def lower_from_in_class [OF cls]
        py_replace_same sub_outside_class_in_class [OF cls])
  also have "\<dots> = py_strip (sub_space_runs ?n)"
    by (simp add: sub_newline_runs_fixed normalize_uroman_newline_ok)
  also have "\<dots> = py_strip ?n"
    by (simp add: sub_space_runs_fixed normalize_uroman_space_ok)
  also have "\<dots> = ?n" by (rule normalize_uroman_stripped)
  finally show ?thesis .
qed

text \<open>
  C5. Every code point of a normalised text is a lower-case ASCII letter, the apostrophe,
  the space, the newline, \<open>(\<close> or \<open>)\<close>.
\<close>

theorem C5_character_set:
  "\<forall>c \<in> set (normalize_uroman L s).
     (97 \<le> c \<and> c \<le> 122) \<or> c = 39 \<or> c = 32 \<or> c = 10 \<or> c = 40 \<or> c = 41"
  using in_class_normalize_uroman by (auto simp: in_class_def)

theorem C5_character_set_witness:
  "normalize_uroman plain_library (str ''Hi, 2 (U)!'') = str ''hi (u)''
   \<and> 104 \<in> set (normalize_uroman plain_library (str ''Hi, 2 (U)!''))
   \<and> (97 \<le> (104::nat) \<and> (104::nat) \<le> 122 \<or> (104::nat) = 39 \<or> (104::nat) = 32
        \<or> (104::nat) = 10 \<or> (104::nat) = 40 \<or> (104::nat) = 41)"
proof -
  have val: "normalize_uroman plain_library (str ''Hi, 2 (U)!'') = str ''hi (u)''"
    by (simp add: normalize_eval plain_library_def)
  have mem: "104 \<in> set (normalize_uroman plain_library (str ''Hi, 2 (U)!''))"
    unfolding val by simp
  show ?thesis
    using val mem C5_character_set [of plain_library "str ''Hi, 2 (U)!''"] by blast
qed

text \<open>
  C6. \<open>transcript_for_alignment\<close> is a function of \<open>raw\<close> alone, the same for a
  \<open>Lyrics\<close>, a \<open>Line\<close> and a \<open>Word\<close>: none of its tokens contains \<open>(\<close> (40) or
  \<open>)\<close> (41). A token of \<open>transcript\<close> can contain them: the transcript of \<open>(oohh)\<close>
  is the one token \<open>(oohh)\<close>.
\<close>

theorem C6_no_parens_for_alignment:
  "(\<forall>t \<in> set (transcript_for_alignment L raw). 40 \<notin> set t \<and> 41 \<notin> set t)
   \<and> transcript L (str ''(oohh)'') = [str ''(oohh)'']"
proof
  show "\<forall>t \<in> set (transcript_for_alignment L raw). 40 \<notin> set t \<and> 41 \<notin> set t"
  proof
    fix t assume "t \<in> set (transcript_for_alignment L raw)"
    then have "set t \<subseteq> set (strip_parens (normalized L raw))"
      unfolding transcript_for_alignment_def by (rule set_py_split)
    then show "40 \<notin> set t \<and> 41 \<notin> set t" by (auto simp: set_strip_parens)
  qed
  show "transcript L (str ''(oohh)'') = [str ''(oohh)'']"
    by (simp add: transcript_def normalized_def normalize_eval py_split_def)
qed

theorem C6_no_parens_for_alignment_witness:
  "transcript_for_alignment plain_library (str ''(Ooh) la'') = [str ''ooh'', str ''la'']
   \<and> transcript plain_library (str ''(Ooh) la'') = [str ''(ooh)'', str ''la'']
   \<and> str ''ooh'' \<in> set (transcript_for_alignment plain_library (str ''(Ooh) la''))
   \<and> 40 \<notin> set (str ''ooh'') \<and> 41 \<notin> set (str ''ooh'')"
proof -
  have a: "transcript_for_alignment plain_library (str ''(Ooh) la'') = [str ''ooh'', str ''la'']"
    by (simp add: transcript_for_alignment_def strip_parens_def normalized_def normalize_eval
        py_split_def plain_library_def)
  have b: "transcript plain_library (str ''(Ooh) la'') = [str ''(ooh)'', str ''la'']"
    by (simp add: transcript_def normalized_def normalize_eval py_split_def plain_library_def)
  have mem: "str ''ooh'' \<in> set (transcript_for_alignment plain_library (str ''(Ooh) la''))"
    unfolding a by simp
  show ?thesis
    using a b mem C6_no_parens_for_alignment [of plain_library "str ''(Ooh) la''"] by blast
qed

text \<open>
  C7. The Japanese splitter applied to \<open>kyou\<close> returns \<open>["kyo", "u"]\<close>: a boundary
  before \<open>k\<close> (whose empty first piece is dropped), none before \<open>y\<close> after \<open>k\<close>, none
  before \<open>o\<close> after \<open>y\<close>, and one between \<open>o\<close> and \<open>u\<close>.
\<close>

theorem C7_kyou:
  "auto_split L (str ''kyou'') (str ''ja'') = [str ''kyo'', str ''u'']
   \<and> subn L (str ''kyou'') = str ''#@kyo#@u''"
  by (simp add: split_eval)

text \<open>
  C8. For English, a word that is a key of the custom dictionary is split as its entry
  says, whatever the hyphenator would return; \<open>gonna\<close> is split into \<open>["gon", "na"]\<close>.
\<close>

theorem C8_dictionary_first:
  "auto_split L (str ''gonna'') (str ''en'') = [str ''gon'', str ''na'']
   \<and> (\<forall>word syls. map_of CUSTOM_ENGLISH_SYLLABLES word = Some syls
        \<longrightarrow> auto_split L word (str ''en'') = syls)"
  by (simp add: english_eval)

theorem C8_dictionary_first_witness:
  "map_of CUSTOM_ENGLISH_SYLLABLES (str ''tonight'') = Some [str ''to'', str ''night'']
   \<and> auto_split (plain_library\<lparr>pyphen_inserted := (\<lambda>word. str ''ton|ight'')\<rparr>)
        (str ''tonight'') (str ''en'') = [str ''to'', str ''night'']"
proof -
  have key: "map_of CUSTOM_ENGLISH_SYLLABLES (str ''tonight'') = Some [str ''to'', str ''night'']"
    by (simp add: CUSTOM_ENGLISH_SYLLABLES_def)
  show ?thesis
    using key C8_dictionary_first [of "plain_library\<lparr>pyphen_inserted := (\<lambda>word. str ''ton|ight'')\<rparr>"]
    by blast
qed

text \<open>
  C9. The raw text of a \<open>Line\<close> of a \<open>Lyrics\<close> is never empty, nor is the raw text of
  a \<open>Word\<close> of a \<open>Line\<close>; the lyrics \<open>"Line one\n\nLine two"\<close> in English have two
  lines, each of two words.
\<close>

theorem C9_no_empty_line_or_word:
  "(\<forall>line \<in> set (lines lyrics). line_raw line \<noteq> [])
   \<and> (\<forall>word \<in> set (words L line). word_raw word \<noteq> [])
   \<and> length (lines (Lyrics (str ''Line one\<newline>\<newline>Line two'') (str ''en''))) = 2
   \<and> (\<forall>line \<in> set (lines (Lyrics (str ''Line one\<newline>\<newline>Line two'') (str ''en''))).
         length (words L line) = 2)"
proof (intro conjI)
  show "\<forall>line \<in> set (lines lyrics). line_raw line \<noteq> []"
    by (cases lyrics) auto
  show "\<forall>word \<in> set (words L line). word_raw word \<noteq> []"
    by (cases line) auto
  show "length (lines (Lyrics (str ''Line one\<newline>\<newline>Line two'') (str ''en''))) = 2"
    by (simp add: hierarchy_eval)
  show "\<forall>line \<in> set (lines (Lyrics (str ''Line one\<newline>\<newline>Line two'') (str ''en''))).
         length (words L line) = 2"
    by (simp add: hierarchy_eval)
qed

theorem C9_no_empty_line_or_word_witness:
  "lines (Lyrics (str ''Line one\<newline>\<newline>Line two'') (str ''en''))
     = [Line (str ''Line one'') (str ''en''), Line (str ''Line two'') (str ''en'')]
   \<and> words plain_library (Line (str ''Line one'') (str ''en''))
     = [Word (str ''line'') (str ''en''), Word (str ''one'') (str ''en'')]
   \<and> line_raw (Line (str ''Line one'') (str ''en'')) \<noteq> []
   \<and> length (words plain_library (Line (str ''Line one'') (str ''en''))) = 2
   \<and> word_raw (Word (str ''line'') (str ''en'')) \<noteq> []"
proof -
  have a: "lines (Lyrics (str ''Line one\<newline>\<newline>Line two'') (str ''en''))
     = [Line (str ''Line one'') (str ''en''), Line (str ''Line two'') (str ''en'')]"
    by (simp add: hierarchy_eval)
  have b: "words plain_library (Line (str ''Line one'') (str ''en''))
     = [Word (str ''line'') (str ''en''), Word (str ''one'') (str ''en'')]"
    by (simp add: hierarchy_eval plain_library_def)
  have m1: "Line (str ''Line one'') (str ''en'')
      \<in> set (lines (Lyrics (str ''Line one\<newline>\<newline>Line two'') (str ''en'')))"
    unfolding a by simp
  have m2: "Word (str ''line'') (str ''en'')
      \<in> set (words plain_library (Line (str ''Line one'') (str ''en'')))"
    unfolding b by simp
  show ?thesis
    using a b m1 m2
      C9_no_empty_line_or_word [of "Lyrics (str ''Line one\<newline>\<newline>Line two'') (str ''en'')"
        plain_library "Line (str ''Line one'') (str ''en'')"]
    by blast
qed

text \<open>
  C10. A line of the raw lyrics that is not empty, and all of whose code points are
  ones that normalisation removes (after lower-casing, each is a space, a newline or
  outside the character class of the normaliser), is a \<open>Line\<close> of the \<open>Lyrics\<close>, and
  that \<open>Line\<close> has no words.
\<close>

theorem C10_line_without_words:
  assumes "line \<in> set (py_splitlines raw)" and "line \<noteq> []"
    and "\<forall>c \<in> set (py_lower L line). c = 10 \<or> c = 32 \<or> \<not> in_class c"
  shows "Line line language \<in> set (lines (Lyrics raw language))
         \<and> words L (Line line language) = []"
proof
  from assms(1,2) show "Line line language \<in> set (lines (Lyrics raw language))" by simp
  from assms(3) have "normalize_uroman L line = []" by (rule normalize_uroman_blank)
  then show "words L (Line line language) = []"
    by (simp add: transcript_def normalized_def py_split_def)
qed

theorem C10_line_without_words_witness:
  "lines (Lyrics (str ''la la\<newline>1, 2, 3!\<newline> \<newline>la'') (str ''en''))
     = [Line (str ''la la'') (str ''en''), Line (str ''1, 2, 3!'') (str ''en''),
        Line (str '' '') (str ''en''), Line (str ''la'') (str ''en'')]
   \<and> words plain_library (Line (str ''1, 2, 3!'') (str ''en'')) = []
   \<and> words plain_library (Line (str '' '') (str ''en'')) = []"
proof -
  let ?raw = "str ''la la\<newline>1, 2, 3!\<newline> \<newline>la''"
  have ls: "py_splitlines ?raw = [str ''la la'', str ''1, 2, 3!'', str '' '', str ''la'']"
    by (simp add: py_splitlines_def py_islinebreak_def)
  have m1: "str ''1, 2, 3!'' \<in> set (py_splitlines ?raw)" unfolding ls by simp
  have m2: "str '' '' \<in> set (py_splitlines ?raw)" unfolding ls by simp
  have n1: "str ''1, 2, 3!'' \<noteq> []" and n2: "str '' '' \<noteq> []" by simp_all
  have r1: "\<forall>c \<in> set (py_lower plain_library (str ''1, 2, 3!'')). c = 10 \<or> c = 32 \<or> \<not> in_class c"
    by (simp add: py_lower_def ascii_lower_def in_class_def)
  have r2: "\<forall>c \<in> set (py_lower plain_library (str '' '')). c = 10 \<or> c = 32 \<or> \<not> in_class c"
    by (simp add: py_lower_def ascii_lower_def in_class_def)
  have all: "lines (Lyrics ?raw (str ''en''))
     = [Line (str ''la la'') (str ''en''), Line (str ''1, 2, 3!'') (str ''en''),
        Line (str '' '') (str ''en''), Line (str ''la'') (str ''en'')]"
    using ls by simp
  show ?thesis
    using all C10_line_without_words [OF m1 n1 r1, of "str ''en''"]
      C10_line_without_words [OF m2 n2 r2, of "str ''en''"]
    by blast
qed

end
